theory Spec2Isabelle
  imports
    Complex_Main
    "HOL-Library.Char_ord"
    "HOL-Library.List_Lexorder"
    "HOL-Library.Product_Lexorder"
    "HOL-Library.Sublist"
    "HOL-Library.Multiset"
begin

section \<open>The data frame of Task5\_Dashboard.py\<close>

text \<open>
  The script reads one CSV file into a pandas data frame and uses thirteen of its columns.
  A cell that is empty in the file is a missing value (NaN, NaT) after loading, so every
  column is modelled with an optional cell. The text columns hold strings. The two date
  columns are parsed from calendar dates: a date is the triple (year, month, day), ordered
  lexicographically, which is the order of the timestamps at midnight that pandas
  compares. The numeric columns hold real numbers, and \<open>series_sum\<close> adds them
  exactly. pandas adds float64 numbers and every addition rounds: the sums as the machine
  computes them are modelled apart, and what is said about equal sums of differently
  grouped cells is said of those.
\<close>

type_synonym date = "int \<times> int \<times> int"

record sale =
  Order_ID :: "string option"
  Order_Date :: "date option"
  Ship_Date :: "date option"
  Ship_Mode :: "string option"
  Segment :: "string option"
  State :: "string option"
  Region :: "string option"
  Category :: "string option"
  Sub_Category :: "string option"
  Sales :: "real option"
  Profit :: "real option"
  Discount :: "real option"
  Shipping_Cost :: "real option"

type_synonym frame = "sale list"

datatype py_error = IndexError | KeyError | ValueError

subsection \<open>Column operations of pandas used by the script\<close>

text \<open>\<^verbatim>\<open>df['Region']\<close>: the cells of one column, in row order.\<close>

definition col :: "('r \<Rightarrow> 'a) \<Rightarrow> 'r list \<Rightarrow> 'a list" where
  "col f df = map f df"

text \<open>\<^verbatim>\<open>Series.dropna()\<close>: the cells that are not missing, in order.\<close>

fun dropna :: "'a option list \<Rightarrow> 'a list" where
  "dropna [] = []"
| "dropna (None # xs) = dropna xs"
| "dropna (Some x # xs) = x # dropna xs"

text \<open>\<^verbatim>\<open>Series.unique()\<close>: the distinct values in order of first appearance.\<close>

definition unique :: "'a list \<Rightarrow> 'a list" where
  "unique xs = rev (remdups (rev xs))"

text \<open>
  \<^verbatim>\<open>Series.isin(values)\<close>: one truth value per cell. The values come from a multiselect
  whose options are strings, so a missing cell is in no selection.
\<close>

definition isin :: "'a option list \<Rightarrow> 'a list \<Rightarrow> bool list" where
  "isin s vals = map (\<lambda>c. case c of None \<Rightarrow> False | Some v \<Rightarrow> v \<in> set vals) s"

text \<open>
  \<^verbatim>\<open>Series >= ts\<close> and \<^verbatim>\<open>Series <= ts\<close>: a comparison with a missing date (NaT) is
  false.
\<close>

definition ge_series :: "date option list \<Rightarrow> date \<Rightarrow> bool list" where
  "ge_series s t = map (\<lambda>c. case c of None \<Rightarrow> False | Some d \<Rightarrow> t \<le> d) s"

definition le_series :: "date option list \<Rightarrow> date \<Rightarrow> bool list" where
  "le_series s t = map (\<lambda>c. case c of None \<Rightarrow> False | Some d \<Rightarrow> d \<le> t) s"

text \<open>\<^verbatim>\<open>mask1 & mask2\<close> on two boolean series of one frame: cell by cell.\<close>

definition and_series :: "bool list \<Rightarrow> bool list \<Rightarrow> bool list" where
  "and_series a b = map (\<lambda>(x, y). x \<and> y) (zip a b)"

text \<open>\<^verbatim>\<open>df[mask]\<close>: the rows whose mask cell is true, as a new frame.\<close>

definition getitem_mask :: "'r list \<Rightarrow> bool list \<Rightarrow> 'r list" where
  "getitem_mask df msk = map fst (filter snd (zip df msk))"

text \<open>\<^verbatim>\<open>pd.to_datetime(d)\<close> of a date: the timestamp of its midnight, here the date itself.\<close>

definition to_datetime :: "date \<Rightarrow> date" where
  "to_datetime d = d"

subsection \<open>The filtered frame (lines 29 to 35)\<close>

text \<open>
  \<^verbatim>\<open>date_range\<close> is the tuple returned by the date input; the script reads its items 0
  and 1, which raises IndexError on a shorter tuple.
\<close>

definition filtered_df ::
  "frame \<Rightarrow> string list \<Rightarrow> string list \<Rightarrow> string list \<Rightarrow> date list \<Rightarrow> py_error + frame" where
  "filtered_df df region segment category date_range =
     (case date_range of
        d0 # d1 # _ \<Rightarrow>
          Inr (getitem_mask df
            (and_series (and_series (and_series (and_series
               (isin (col Region df) region)
               (isin (col Segment df) segment))
               (isin (col Category df) category))
               (ge_series (col Order_Date df) (to_datetime d0)))
               (le_series (col Order_Date df) (to_datetime d1))))
      | _ \<Rightarrow> Inl IndexError)"

text \<open>The conjuncts of the filter, for one row.\<close>

definition in_selection :: "'a option \<Rightarrow> 'a list \<Rightarrow> bool" where
  "in_selection c vals = (case c of None \<Rightarrow> False | Some v \<Rightarrow> v \<in> set vals)"

definition in_date_range :: "date option \<Rightarrow> date \<Rightarrow> date \<Rightarrow> bool" where
  "in_date_range c d0 d1 = (case c of None \<Rightarrow> False | Some d \<Rightarrow> d0 \<le> d \<and> d \<le> d1)"

definition satisfies :: "string list \<Rightarrow> string list \<Rightarrow> string list \<Rightarrow> date \<Rightarrow> date \<Rightarrow> sale \<Rightarrow> bool" where
  "satisfies region segment category d0 d1 r =
     (in_selection (Region r) region \<and> in_selection (Segment r) segment \<and>
      in_selection (Category r) category \<and> in_date_range (Order_Date r) d0 d1)"

subsection \<open>The sidebar defaults (lines 23 to 26)\<close>

text \<open>
  The options and the default of each multiselect are \<^verbatim>\<open>df[c].dropna().unique()\<close>. The
  default of the date input is the least and the greatest order date, which pandas takes
  over the dates that are not missing; there is none when every order date is missing.
\<close>

definition default_selection :: "(sale \<Rightarrow> string option) \<Rightarrow> frame \<Rightarrow> string list" where
  "default_selection c df = unique (dropna (col c df))"

definition series_min :: "date option list \<Rightarrow> date option" where
  "series_min s = (case dropna s of [] \<Rightarrow> None | d # ds \<Rightarrow> Some (fold min ds d))"

definition series_max :: "date option list \<Rightarrow> date option" where
  "series_max s = (case dropna s of [] \<Rightarrow> None | d # ds \<Rightarrow> Some (fold max ds d))"

subsection \<open>Reductions\<close>

text \<open>
  \<^verbatim>\<open>Series.sum()\<close> skips missing cells and is 0 on none; \<^verbatim>\<open>Series.mean()\<close> skips
  them and is NaN (here \<open>None\<close>) on none; \<^verbatim>\<open>Series.nunique()\<close> counts the distinct
  cells that are not missing. \<open>series_sum\<close> and \<open>series_mean\<close> add exactly; the
  rounding of the machine's additions is modelled further down.
\<close>

definition series_sum :: "real option list \<Rightarrow> real" where
  "series_sum s = sum_list (dropna s)"

definition series_mean :: "real option list \<Rightarrow> real option" where
  "series_mean s =
     (case dropna s of [] \<Rightarrow> None | x # xs \<Rightarrow> Some (sum_list (x # xs) / real (length (x # xs))))"

definition nunique :: "'a option list \<Rightarrow> nat" where
  "nunique s = length (unique (dropna s))"

subsection \<open>The KPIs (lines 42 to 46)\<close>

record kpis =
  total_sales :: real
  total_profit :: real
  avg_shipping :: "real option"
  total_orders :: nat

definition draw_kpis :: "frame \<Rightarrow> kpis" where
  "draw_kpis fdf =
     \<lparr> total_sales = series_sum (col Sales fdf),
       total_profit = series_sum (col Profit fdf),
       avg_shipping = series_mean (col Shipping_Cost fdf),
       total_orders = nunique (col Order_ID fdf) \<rparr>"

subsection \<open>Grouping\<close>

text \<open>
  \<^verbatim>\<open>df.groupby(key)[val].sum().reset_index()\<close> with the defaults \<^verbatim>\<open>sort=True\<close> and
  \<^verbatim>\<open>dropna=True\<close>: one row per distinct key that is not missing, in ascending key order,
  with the sum of the group's cells. With two key columns the key of a row is the pair of
  its cells, missing when either cell is, and pairs are ordered lexicographically.
\<close>

definition groupby_sum ::
  "('r \<Rightarrow> 'k::linorder option) \<Rightarrow> ('r \<Rightarrow> real option) \<Rightarrow> 'r list \<Rightarrow> ('k \<times> real) list" where
  "groupby_sum key val df =
     map (\<lambda>k. (k, series_sum (col val (filter (\<lambda>r. key r = Some k) df))))
       (sort (unique (dropna (col key df))))"

definition keys2 :: "('r \<Rightarrow> 'a option) \<Rightarrow> ('r \<Rightarrow> 'b option) \<Rightarrow> 'r \<Rightarrow> ('a \<times> 'b) option" where
  "keys2 f g r =
     (case f r of None \<Rightarrow> None
      | Some a \<Rightarrow> (case g r of None \<Rightarrow> None | Some b \<Rightarrow> Some (a, b)))"

subsection \<open>General Overview (lines 66, 73 to 75, 82)\<close>

definition region_sales :: "frame \<Rightarrow> (string \<times> real) list" where
  "region_sales fdf = groupby_sum Region Sales fdf"

text \<open>
  \<^verbatim>\<open>df_year\<close> is a copy of the filtered frame with one more column, the year of the order
  date: a row of it is the row of the filtered frame paired with its year.
\<close>

definition dt_year :: "date option \<Rightarrow> int option" where
  "dt_year c = (case c of None \<Rightarrow> None | Some d \<Rightarrow> Some (fst d))"

definition df_year :: "frame \<Rightarrow> (sale \<times> int option) list" where
  "df_year fdf = map (\<lambda>r. (r, dt_year (Order_Date r))) fdf"

definition year_sales :: "frame \<Rightarrow> (int \<times> real) list" where
  "year_sales fdf = groupby_sum snd (\<lambda>r. Sales (fst r)) (df_year fdf)"

text \<open>
  \<^verbatim>\<open>sort_values(ascending=False)\<close>: pandas reverses the series, takes the rows in the
  order numpy's argsort puts them (ascending values), and reverses the result. The sort
  kind is the default (quicksort), whose order of equal values numpy leaves open, so the
  ascending sort is a parameter \<open>srt\<close> of the model, and \<open>sorts_by_value\<close> is all
  that is assumed of it. \<^verbatim>\<open>head(10)\<close> keeps the first ten rows.
\<close>

definition sorts_by_value :: "(('k \<times> real) list \<Rightarrow> ('k \<times> real) list) \<Rightarrow> bool" where
  "sorts_by_value srt = (\<forall>s. mset (srt s) = mset s \<and> sorted (map snd (srt s)))"

definition sort_values_desc ::
  "(('k \<times> real) list \<Rightarrow> ('k \<times> real) list) \<Rightarrow> ('k \<times> real) list \<Rightarrow> ('k \<times> real) list" where
  "sort_values_desc srt s = rev (srt (rev s))"

definition head :: "nat \<Rightarrow> 'a list \<Rightarrow> 'a list" where
  "head n s = take n s"

definition top_states ::
  "((string \<times> real) list \<Rightarrow> (string \<times> real) list) \<Rightarrow> frame \<Rightarrow> (string \<times> real) list" where
  "top_states srt fdf = head 10 (sort_values_desc srt (groupby_sum State Profit fdf))"

subsection \<open>Detailed Analysis (lines 94, 109, 116 to 120)\<close>

definition cat_sales :: "frame \<Rightarrow> ((string \<times> string) \<times> real) list" where
  "cat_sales fdf = groupby_sum (keys2 Category Sub_Category) Sales fdf"

definition ship_sales :: "frame \<Rightarrow> (string \<times> real) list" where
  "ship_sales fdf = groupby_sum Ship_Mode Sales fdf"

definition heat_data :: "frame \<Rightarrow> ((string \<times> string) \<times> real) list" where
  "heat_data fdf = groupby_sum (keys2 Region Segment) Profit fdf"

text \<open>
  \<^verbatim>\<open>pivot(index, columns, values)\<close>: the row labels are the distinct index cells and the
  column labels the distinct column cells, both ascending; a cell holds the value of the
  input row with that pair of labels and is missing when there is none. pandas raises
  ValueError when two input rows have the same pair. \<^verbatim>\<open>fillna(0)\<close> puts 0 in the
  missing cells.
\<close>

record 'v pivoted =
  index :: "string list"
  columns :: "string list"
  values_of :: "'v list list"

definition pivot :: "((string \<times> string) \<times> real) list \<Rightarrow> py_error + real option pivoted" where
  "pivot d =
     (if distinct (map fst d)
      then Inr \<lparr> index = sort (unique (map (\<lambda>e. fst (fst e)) d)),
                 columns = sort (unique (map (\<lambda>e. snd (fst e)) d)),
                 values_of =
                   map (\<lambda>i. map (\<lambda>c. map_of d (i, c)) (sort (unique (map (\<lambda>e. snd (fst e)) d))))
                     (sort (unique (map (\<lambda>e. fst (fst e)) d))) \<rparr>
      else Inl ValueError)"

definition fillna :: "real \<Rightarrow> real option pivoted \<Rightarrow> real pivoted" where
  "fillna v p =
     \<lparr> index = index p, columns = columns p,
       values_of = map (map (\<lambda>c. case c of None \<Rightarrow> v | Some x \<Rightarrow> x)) (values_of p) \<rparr>"

definition heat_pivot :: "frame \<Rightarrow> py_error + real pivoted" where
  "heat_pivot fdf =
     (case pivot (heat_data fdf) of Inl e \<Rightarrow> Inl e | Inr p \<Rightarrow> Inr (fillna 0 p))"

subsection \<open>Frames as objects\<close>

text \<open>
  A pandas frame is an object, and a variable holds a reference to it. The heap is the
  list of the frames allocated so far, and a reference is a position in it. Indexing a
  frame with a boolean series builds a new frame: the statement of lines 29 to 35
  allocates the filtered frame and binds \<^verbatim>\<open>filtered_df\<close> to it.
\<close>

type_synonym heap = "frame list"

definition exec_filter ::
  "heap \<Rightarrow> nat \<Rightarrow> string list \<Rightarrow> string list \<Rightarrow> string list \<Rightarrow> date list
     \<Rightarrow> py_error + (nat \<times> heap)" where
  "exec_filter h df region segment category date_range =
     (case filtered_df (h ! df) region segment category date_range of
        Inl e \<Rightarrow> Inl e
      | Inr f \<Rightarrow> Inr (length h, h @ [f]))"

subsection \<open>A small frame for concrete runs\<close>

text \<open>
  Four rows: two in the East, one in the West, and one whose region and ship mode are
  missing in the file.
\<close>

definition row1 :: sale where
  "row1 = \<lparr> Order_ID = Some ''CA-1'', Order_Date = Some (2020, 1, 15), Ship_Date = Some (2020, 1, 18),
            Ship_Mode = Some ''First Class'', Segment = Some ''Consumer'', State = Some ''New York'',
            Region = Some ''East'', Category = Some ''Furniture'', Sub_Category = Some ''Chairs'',
            Sales = Some 100, Profit = Some 10, Discount = Some 0, Shipping_Cost = Some 4 \<rparr>"

definition row2 :: sale where
  "row2 = \<lparr> Order_ID = Some ''CA-1'', Order_Date = Some (2020, 3, 1), Ship_Date = Some (2020, 3, 5),
            Ship_Mode = Some ''Second Class'', Segment = Some ''Corporate'', State = Some ''New Jersey'',
            Region = Some ''East'', Category = Some ''Furniture'', Sub_Category = Some ''Tables'',
            Sales = Some 50, Profit = Some (- 5), Discount = Some (1 / 5), Shipping_Cost = Some 2 \<rparr>"

definition row3 :: sale where
  "row3 = \<lparr> Order_ID = Some ''US-2'', Order_Date = Some (2021, 6, 30), Ship_Date = Some (2021, 7, 2),
            Ship_Mode = Some ''First Class'', Segment = Some ''Consumer'', State = Some ''California'',
            Region = Some ''West'', Category = Some ''Furniture'', Sub_Category = Some ''Chairs'',
            Sales = Some 200, Profit = Some 20, Discount = Some 0, Shipping_Cost = Some 6 \<rparr>"

definition row4 :: sale where
  "row4 = \<lparr> Order_ID = Some ''US-3'', Order_Date = Some (2020, 2, 2), Ship_Date = None,
            Ship_Mode = None, Segment = Some ''Consumer'', State = Some ''Texas'',
            Region = None, Category = Some ''Furniture'', Sub_Category = Some ''Chairs'',
            Sales = Some 70, Profit = Some 7, Discount = None, Shipping_Cost = None \<rparr>"

definition demo :: frame where
  "demo = [row1, row2, row3, row4]"




subsection \<open>The profit of one region and segment\<close>

text \<open>The summed profit of the rows with region \<open>i\<close> and segment \<open>c\<close>; 0 when there is none.\<close>

definition pair_profit :: "frame \<Rightarrow> string \<Rightarrow> string \<Rightarrow> real" where
  "pair_profit fdf i c =
     series_sum (col Profit (filter (\<lambda>r. Region r = Some i \<and> Segment r = Some c) fdf))"





subsection \<open>Sums as the machine computes them\<close>

text \<open>
  pandas holds the amounts as float64 numbers, and the sum of two of them is rounded to
  the nearest float64. \<open>rnd64\<close> is that rounding for numbers in the normal range: to 53
  significant bits, a tie going to the even neighbour. \<open>naive_sum\<close> adds the cells in row
  order and rounds every addition.
\<close>

definition round_even :: "real \<Rightarrow> int" where
  "round_even y =
     (if y - of_int \<lfloor>y\<rfloor> < 1 / 2 then \<lfloor>y\<rfloor>
      else if 1 / 2 < y - of_int \<lfloor>y\<rfloor> then \<lfloor>y\<rfloor> + 1
      else if even \<lfloor>y\<rfloor> then \<lfloor>y\<rfloor> else \<lfloor>y\<rfloor> + 1)"

definition ulp64 :: "real \<Rightarrow> real" where
  "ulp64 x = 2 powr (of_int \<lfloor>log 2 \<bar>x\<bar>\<rfloor> - 52)"

definition rnd64 :: "real \<Rightarrow> real" where
  "rnd64 x = (if x = 0 then 0 else ulp64 x * of_int (round_even (x / ulp64 x)))"

definition naive_sum :: "real list \<Rightarrow> real" where
  "naive_sum ys = foldl (\<lambda>a y. rnd64 (a + y)) 0 ys"



text \<open>The grouped views with the machine's sums in the place of the exact ones.\<close>

definition groupby_agg ::
  "(real list \<Rightarrow> real) \<Rightarrow> ('r \<Rightarrow> 'k::linorder option) \<Rightarrow> ('r \<Rightarrow> real option) \<Rightarrow> 'r list
     \<Rightarrow> ('k \<times> real) list" where
  "groupby_agg gsum key val df =
     map (\<lambda>k. (k, gsum (dropna (col val (filter (\<lambda>r. key r = Some k) df)))))
       (sort (unique (dropna (col key df))))"

definition region_sales_fl :: "(real list \<Rightarrow> real) \<Rightarrow> frame \<Rightarrow> (string \<times> real) list" where
  "region_sales_fl gsum fdf = groupby_agg gsum Region Sales fdf"







text \<open>
  Three amounts that are not whole numbers: 0.1 in the East, 0.2 and 0.3 in the West, each
  the float64 nearest to the decimal text of the file.
\<close>

definition amount_row :: "string \<Rightarrow> real \<Rightarrow> sale" where
  "amount_row reg x = row1 \<lparr> Region := Some reg, Sales := Some x \<rparr>"

definition tenth1 :: real where "tenth1 = rnd64 (1 / 10)"
definition tenth2 :: real where "tenth2 = rnd64 (2 / 10)"
definition tenth3 :: real where "tenth3 = rnd64 (3 / 10)"

definition tenths :: frame where
  "tenths = [amount_row ''East'' tenth1, amount_row ''West'' tenth2, amount_row ''West'' tenth3]"

section \<open>Properties of the filter\<close>

lemma set_dropna: "set (dropna xs) = {x. Some x \<in> set xs}"
  by (induction xs rule: dropna.induct) auto

lemma set_unique: "set (unique xs) = set xs"
  by (simp add: unique_def)

lemma distinct_unique: "distinct (unique xs)"
  by (simp add: unique_def)

lemma getitem_mask_map: "getitem_mask df (map p df) = filter p df"
  by (induction df) (simp_all add: getitem_mask_def)

lemma and_series_map: "and_series (map p xs) (map q xs) = map (\<lambda>x. p x \<and> q x) xs"
  by (induction xs) (simp_all add: and_series_def)

text \<open>The boolean series of lines 30 to 34 is the row predicate \<open>satisfies\<close>, row by row.\<close>

lemma filtered_df_filter:
  "filtered_df df region segment category (d0 # d1 # ds) =
     Inr (filter (satisfies region segment category d0 d1) df)"
proof -
  have "and_series (and_series (and_series (and_series
               (isin (col Region df) region)
               (isin (col Segment df) segment))
               (isin (col Category df) category))
               (ge_series (col Order_Date df) (to_datetime d0)))
               (le_series (col Order_Date df) (to_datetime d1))
        = map (satisfies region segment category d0 d1) df"
    unfolding isin_def ge_series_def le_series_def col_def map_map comp_def and_series_map
    by (rule map_cong)
       (auto simp: satisfies_def in_selection_def in_date_range_def to_datetime_def
             split: option.splits)
  then show ?thesis
    by (simp add: filtered_df_def getitem_mask_map)
qed

lemma demo_filtered:
  "filtered_df demo [''East'', ''West''] [''Consumer''] [''Furniture''] [(2020, 1, 1), (2021, 12, 31)]
   = Inr [row1, row3]"
  by code_simp

text \<open>
  C1. For every frame and every selection of regions, segments and categories with an
  order-date range, the filter returns a frame in which every row satisfies all four
  conjuncts, in which every row of the input that satisfies them appears (as often as in
  the input), and whose rows are in the order they have in the input.
\<close>

theorem C1_filter_correct:
  "\<exists>out. filtered_df df region segment category [d0, d1] = Inr out \<and>
     (\<forall>r\<in>set out. satisfies region segment category d0 d1 r) \<and>
     (\<forall>r\<in>set df. satisfies region segment category d0 d1 r \<longrightarrow> r \<in> set out) \<and>
     (\<forall>r. satisfies region segment category d0 d1 r \<longrightarrow> count_list out r = count_list df r) \<and>
     subseq out df"
proof -
  let ?P = "satisfies region segment category d0 d1"
  have "count_list (filter ?P df) r = count_list df r" if "?P r" for r
    using that by (induction df) auto
  then show ?thesis
    by (simp add: filtered_df_filter)
qed

theorem C1_filter_correct_witness:
  "filtered_df demo [''East'', ''West''] [''Consumer''] [''Furniture''] [(2020, 1, 1), (2021, 12, 31)]
     = Inr [row1, row3] \<and>
   satisfies [''East'', ''West''] [''Consumer''] [''Furniture''] (2020, 1, 1) (2021, 12, 31) row1 \<and>
   satisfies [''East'', ''West''] [''Consumer''] [''Furniture''] (2020, 1, 1) (2021, 12, 31) row3 \<and>
   count_list [row1, row3] row3 = count_list demo row3 \<and>
   subseq [row1, row3] demo"
  using C1_filter_correct [of demo "[''East'', ''West'']" "[''Consumer'']" "[''Furniture'']"
      "(2020, 1, 1)" "(2021, 12, 31)"]
  unfolding demo_filtered by auto

text \<open>
  C3. Filtering the filtered frame again with the same selections and the same date range
  returns the filtered frame.
\<close>

theorem C3_filter_idempotent:
  "filtered_df df region segment category [d0, d1] = Inr out \<Longrightarrow>
   filtered_df out region segment category [d0, d1] = Inr out"
  by (auto simp: filtered_df_filter)

theorem C3_filter_idempotent_witness:
  "filtered_df [row1, row3] [''East'', ''West''] [''Consumer''] [''Furniture'']
     [(2020, 1, 1), (2021, 12, 31)] = Inr [row1, row3]"
  using C3_filter_idempotent [OF demo_filtered] .

text \<open>
  C6. When the start of the date range is after its end, the filter does not fail and
  returns the empty frame.
\<close>

theorem C6_inverted_range_empty:
  "d1 < d0 \<Longrightarrow> filtered_df df region segment category [d0, d1] = Inr []"
  by (auto simp: filtered_df_filter filter_empty_conv satisfies_def in_date_range_def
      split: option.splits)

theorem C6_inverted_range_empty_witness:
  "filtered_df demo [''East'', ''West''] [''Consumer''] [''Furniture''] [(2021, 12, 31), (2020, 1, 1)]
     = Inr []"
proof -
  have "((2020, 1, 1) :: date) < (2021, 12, 31)" by simp
  then show ?thesis by (rule C6_inverted_range_empty)
qed

text \<open>
  C8. The filter statement allocates a new frame and binds the result to it: the frame
  that \<^verbatim>\<open>df\<close> refers to, and every other frame of the heap, is the same after the
  statement as before.
\<close>

theorem C8_filter_keeps_input:
  "df < length h \<Longrightarrow>
   \<exists>fdf h'. exec_filter h df region segment category [d0, d1] = Inr (fdf, h') \<and>
      fdf \<noteq> df \<and> h' ! df = h ! df \<and> (\<forall>a<length h. h' ! a = h ! a) \<and>
      h' ! fdf = filter (satisfies region segment category d0 d1) (h ! df)"
  by (simp add: exec_filter_def filtered_df_filter nth_append)

theorem C8_filter_keeps_input_witness:
  "exec_filter [demo] 0 [''East'', ''West''] [''Consumer''] [''Furniture''] [(2020, 1, 1), (2021, 12, 31)]
     = Inr (1, [demo, [row1, row3]]) \<and>
   [demo, [row1, row3]] ! 0 = [demo] ! 0"
proof -
  have "(0::nat) < length [demo]" by simp
  from C8_filter_keeps_input [OF this, of "[''East'', ''West'']" "[''Consumer'']" "[''Furniture'']"
      "(2020, 1, 1)" "(2021, 12, 31)"]
  obtain fdf h' where
    "exec_filter [demo] 0 [''East'', ''West''] [''Consumer''] [''Furniture'']
       [(2020, 1, 1), (2021, 12, 31)] = Inr (fdf, h')" "h' ! 0 = [demo] ! 0"
    by blast
  moreover have "exec_filter [demo] 0 [''East'', ''West''] [''Consumer''] [''Furniture'']
       [(2020, 1, 1), (2021, 12, 31)] = Inr (1, [demo, [row1, row3]])"
    by (simp add: exec_filter_def demo_filtered)
  ultimately show ?thesis by simp
qed

subsection \<open>The default selection\<close>

lemma series_min_le:
  assumes "series_min s = Some lo" "Some d \<in> set s"
  shows "lo \<le> d"
proof -
  obtain x xs where xs: "dropna s = x # xs" and lo: "lo = fold min xs x"
    using assms(1) by (auto simp: series_min_def split: list.splits)
  have "d \<in> set (x # xs)"
    using assms(2) xs set_dropna[of s] by simp
  moreover have "lo = Min (set (x # xs))"
    using lo by (simp only: Min.set_eq_fold)
  ultimately show ?thesis
    by (simp only: Min_le List.finite_set)
qed

lemma series_max_ge:
  assumes "series_max s = Some hi" "Some d \<in> set s"
  shows "d \<le> hi"
proof -
  obtain x xs where xs: "dropna s = x # xs" and hi: "hi = fold max xs x"
    using assms(1) by (auto simp: series_max_def split: list.splits)
  have "d \<in> set (x # xs)"
    using assms(2) xs set_dropna[of s] by simp
  moreover have "hi = Max (set (x # xs))"
    using hi by (simp only: Max.set_eq_fold)
  ultimately show ?thesis
    by (simp only: Max_ge List.finite_set)
qed

lemma in_default_selection:
  "r \<in> set df \<Longrightarrow> in_selection (c r) (default_selection c df) \<longleftrightarrow> c r \<noteq> None"
  by (force simp: in_selection_def default_selection_def set_unique set_dropna col_def
      split: option.splits)

lemma default_filter:
  assumes "series_min (col Order_Date df) = Some lo" "series_max (col Order_Date df) = Some hi"
  shows "filtered_df df (default_selection Region df) (default_selection Segment df)
           (default_selection Category df) [lo, hi]
         = Inr (filter (\<lambda>r. Region r \<noteq> None \<and> Segment r \<noteq> None \<and> Category r \<noteq> None \<and>
                            Order_Date r \<noteq> None) df)"
proof -
  have "in_date_range (Order_Date r) lo hi \<longleftrightarrow> Order_Date r \<noteq> None" if "r \<in> set df" for r
  proof (cases "Order_Date r")
    case None
    then show ?thesis by (simp add: in_date_range_def)
  next
    case (Some d)
    then have "Some d \<in> set (col Order_Date df)"
      using that by (force simp: col_def)
    then have "lo \<le> d" "d \<le> hi"
      using series_min_le[OF assms(1)] series_max_ge[OF assms(2)] by blast+
    then show ?thesis
      using Some by (simp add: in_date_range_def)
  qed
  then have "satisfies (default_selection Region df) (default_selection Segment df)
           (default_selection Category df) lo hi r \<longleftrightarrow>
          (Region r \<noteq> None \<and> Segment r \<noteq> None \<and> Category r \<noteq> None \<and> Order_Date r \<noteq> None)"
    if "r \<in> set df" for r
    using that by (simp add: satisfies_def in_default_selection)
  then show ?thesis
    unfolding filtered_df_filter by (simp cong: filter_cong)
qed

lemma demo_defaults:
  "default_selection Region demo = [''East'', ''West'']"
  "default_selection Segment demo = [''Consumer'', ''Corporate'']"
  "default_selection Category demo = [''Furniture'']"
  "series_min (col Order_Date demo) = Some (2020, 1, 15)"
  "series_max (col Order_Date demo) = Some (2021, 6, 30)"
  by code_simp+

text \<open>
  C10. With every control at its default (each selection holds the distinct values of its
  column that are not missing, and the date range runs from the least to the greatest
  order date), the filtered frame consists of the rows whose region, segment, category and
  order date are all present: a row whose region, segment or category is missing is not
  in it.
\<close>

theorem C10_default_filter_drops_missing:
  assumes "series_min (col Order_Date df) = Some lo" "series_max (col Order_Date df) = Some hi"
  shows "\<exists>out. filtered_df df (default_selection Region df) (default_selection Segment df)
           (default_selection Category df) [lo, hi] = Inr out \<and>
         out = filter (\<lambda>r. Region r \<noteq> None \<and> Segment r \<noteq> None \<and> Category r \<noteq> None \<and>
                           Order_Date r \<noteq> None) df \<and>
         (\<forall>r\<in>set df. Region r = None \<or> Segment r = None \<or> Category r = None \<longrightarrow> r \<notin> set out)"
  unfolding default_filter [OF assms] by simp

theorem C10_default_filter_drops_missing_witness:
  "filtered_df demo [''East'', ''West''] [''Consumer'', ''Corporate''] [''Furniture'']
     [(2020, 1, 15), (2021, 6, 30)] = Inr [row1, row2, row3] \<and>
   row4 \<in> set demo \<and> Region row4 = None \<and> row4 \<notin> set [row1, row2, row3]"
proof -
  from C10_default_filter_drops_missing [OF demo_defaults(4) demo_defaults(5)]
  obtain out where
    "filtered_df demo [''East'', ''West''] [''Consumer'', ''Corporate''] [''Furniture'']
       [(2020, 1, 15), (2021, 6, 30)] = Inr out"
    "out = filter (\<lambda>r. Region r \<noteq> None \<and> Segment r \<noteq> None \<and> Category r \<noteq> None \<and>
                       Order_Date r \<noteq> None) demo"
    unfolding demo_defaults by blast
  moreover have "filter (\<lambda>r. Region r \<noteq> None \<and> Segment r \<noteq> None \<and> Category r \<noteq> None \<and>
                       Order_Date r \<noteq> None) demo = [row1, row2, row3]"
    by (simp add: demo_def row1_def row2_def row3_def row4_def)
  moreover have "row4 \<in> set demo" "Region row4 = None" "row4 \<notin> set [row1, row2, row3]"
    by (simp_all add: demo_def row1_def row2_def row3_def row4_def)
  ultimately show ?thesis by simp
qed

section \<open>Grouping and summing\<close>

lemma series_sum_Nil: "series_sum [] = 0"
  by (simp add: series_sum_def)



lemma group_keys: "map fst (groupby_sum key val df) = sort (unique (dropna (col key df)))"
  by (simp add: groupby_sum_def comp_def)

lemma set_group_keys: "set (map fst (groupby_sum key val df)) = {k. \<exists>r\<in>set df. key r = Some k}"
  unfolding group_keys by (force simp: set_unique set_dropna col_def)

lemma distinct_group_keys: "distinct (map fst (groupby_sum key val df))"
  unfolding group_keys by (simp add: distinct_unique)

lemma sorted_group_keys: "sorted (map fst (groupby_sum key val df))"
  unfolding group_keys by simp


lemma groupby_sum_dropna:
  "groupby_sum key val (filter (\<lambda>r. key r \<noteq> None) df) = groupby_sum key val df"
proof -
  have 1: "dropna (col key (filter (\<lambda>r. key r \<noteq> None) df)) = dropna (col key df)"
    by (induction df) (auto simp: col_def)
  have 2: "filter (\<lambda>r. key r = Some k) (filter (\<lambda>r. key r \<noteq> None) df) = filter (\<lambda>r. key r = Some k) df" for k
    by (induction df) auto
  show ?thesis
    unfolding groupby_sum_def 1 2 ..
qed


lemma keys2_None: "keys2 f g r \<noteq> None \<longleftrightarrow> f r \<noteq> None \<and> g r \<noteq> None"
  by (simp add: keys2_def split: option.splits)

lemma keys2_Some: "keys2 f g r = Some (a, b) \<longleftrightarrow> f r = Some a \<and> g r = Some b"
  by (simp add: keys2_def split: option.splits)

lemma group_labels: "Some ` fst ` set (groupby_sum key val df) = key ` set df - {None}"
proof -
  have "fst ` set (groupby_sum key val df) = {k. \<exists>r\<in>set df. key r = Some k}"
    using set_group_keys[of key val df] by simp
  then have "Some ` fst ` set (groupby_sum key val df) = {c. \<exists>k. c = Some k \<and> (\<exists>r\<in>set df. key r = Some k)}"
    by blast
  also have "\<dots> = key ` set df - {None}"
  proof (rule set_eqI)
    fix c
    show "c \<in> {c. \<exists>k. c = Some k \<and> (\<exists>r\<in>set df. key r = Some k)} \<longleftrightarrow> c \<in> key ` set df - {None}"
      by (cases c) (simp_all add: image_iff, metis)
  qed
  finally show ?thesis .
qed

lemma df_year_filter: "df_year (filter P df) = filter (\<lambda>p. P (fst p)) (df_year df)"
  by (induction df) (simp_all add: df_year_def)

lemma dt_year_None: "dt_year c = None \<longleftrightarrow> c = None"
  by (simp add: dt_year_def split: option.splits)

lemma year_sales_dropna: "year_sales (filter (\<lambda>r. Order_Date r \<noteq> None) df) = year_sales df"
proof -
  have "(Order_Date (fst p) \<noteq> None) = (snd p \<noteq> None)" if "p \<in> set (df_year df)" for p
  proof -
    from that obtain r where "p = (r, dt_year (Order_Date r))"
      unfolding df_year_def by (simp add: image_iff) blast
    then show ?thesis by (simp add: dt_year_None)
  qed
  then have "filter (\<lambda>p. Order_Date (fst p) \<noteq> None) (df_year df) = filter (\<lambda>p. snd p \<noteq> None) (df_year df)"
    by (rule filter_cong[OF refl])
  then show ?thesis
    by (simp only: year_sales_def df_year_filter groupby_sum_dropna)
qed

section \<open>Sorting by value\<close>

lemma sorts_by_value_sort_key: "sorts_by_value (sort_key snd)"
  by (simp add: sorts_by_value_def)

lemma srt_Nil: "sorts_by_value srt \<Longrightarrow> srt [] = []"
proof -
  assume "sorts_by_value srt"
  then have "mset (srt []) = mset []" unfolding sorts_by_value_def by blast
  then show ?thesis by simp
qed

lemma mset_sort_values_desc: "sorts_by_value srt \<Longrightarrow> mset (sort_values_desc srt s) = mset s"
  by (simp add: sorts_by_value_def sort_values_desc_def)

lemma set_sort_values_desc: "sorts_by_value srt \<Longrightarrow> set (sort_values_desc srt s) = set s"
  using mset_sort_values_desc[of srt s] by (rule_tac mset_eq_setD)

lemma descending_sort_values_desc:
  "sorts_by_value srt \<Longrightarrow> sorted_wrt (\<lambda>a b. b \<le> a) (map snd (sort_values_desc srt s))"
proof -
  assume "sorts_by_value srt"
  then have "sorted (map snd (srt (rev s)))"
    by (simp add: sorts_by_value_def)
  then show ?thesis
    unfolding sort_values_desc_def rev_map[symmetric] sorted_wrt_rev by simp
qed

lemma top_states_dropna: "top_states srt (filter (\<lambda>r. State r \<noteq> None) df) = top_states srt df"
  by (simp only: top_states_def groupby_sum_dropna)

section \<open>The views of an empty frame\<close>

lemma groupby_sum_Nil: "groupby_sum key val [] = []"
  by (simp add: groupby_sum_def col_def unique_def)

lemma empty_views:
  "draw_kpis [] = \<lparr> total_sales = 0, total_profit = 0, avg_shipping = None, total_orders = 0 \<rparr>"
  "region_sales [] = []" "year_sales [] = []" "cat_sales [] = []" "ship_sales [] = []" "heat_data [] = []"
  "heat_pivot [] = Inr \<lparr> index = [], columns = [], values_of = [] \<rparr>"
        apply (simp add: draw_kpis_def col_def series_sum_def series_mean_def nunique_def unique_def)
       apply (simp add: region_sales_def groupby_sum_Nil)
      apply (simp add: year_sales_def df_year_def groupby_sum_Nil)
     apply (simp add: cat_sales_def groupby_sum_Nil)
    apply (simp add: ship_sales_def groupby_sum_Nil)
   apply (simp add: heat_data_def groupby_sum_Nil)
  apply (simp add: heat_pivot_def heat_data_def groupby_sum_Nil pivot_def fillna_def unique_def)
  done

section \<open>The top ten states\<close>

lemma top_empty: "sorts_by_value srt \<Longrightarrow> top_states srt [] = []"
  by (simp add: top_states_def head_def sort_values_desc_def groupby_sum_Nil srt_Nil)

lemma length_groupby_sum: "length (groupby_sum key val df) = card (key ` set df - {None})"
proof -
  have "length (groupby_sum key val df) = length (map fst (groupby_sum key val df))"
    by simp
  also have "\<dots> = card (set (map fst (groupby_sum key val df)))"
    using distinct_group_keys[of key val df] by (simp only: distinct_card)
  also have "\<dots> = card (Some ` fst ` set (groupby_sum key val df))"
    by (simp add: card_image)
  finally show ?thesis
    by (simp only: group_labels)
qed

lemma top_states_props:
  assumes "sorts_by_value srt"
  shows "length (top_states srt fdf) \<le> 10"
    and "sorted_wrt (\<lambda>a b. b \<le> a) (map snd (top_states srt fdf))"
    and "prefix (top_states srt fdf) (sort_values_desc srt (groupby_sum State Profit fdf))"
    and "distinct (map fst (top_states srt fdf))"
    and "set (top_states srt fdf) \<subseteq> set (groupby_sum State Profit fdf)"
    and "length (top_states srt fdf) = min 10 (card (State ` set fdf - {None}))"
    and "\<forall>x\<in>set (groupby_sum State Profit fdf) - set (top_states srt fdf).
           \<forall>y\<in>set (top_states srt fdf). snd x \<le> snd y"
proof -
  let ?g = "groupby_sum State Profit fdf"
  let ?sd = "sort_values_desc srt ?g"
  have top: "top_states srt fdf = take 10 ?sd"
    by (simp add: top_states_def head_def)
  have ms: "mset ?sd = mset ?g"
    by (rule mset_sort_values_desc[OF assms])
  have desc: "sorted_wrt (\<lambda>a b. b \<le> a) (map snd ?sd)"
    by (rule descending_sort_values_desc[OF assms])
  show "length (top_states srt fdf) \<le> 10"
    by (simp add: top)
  show "sorted_wrt (\<lambda>a b. b \<le> a) (map snd (top_states srt fdf))"
    using desc unfolding top take_map[symmetric] by (rule sorted_wrt_take)
  show "prefix (top_states srt fdf) ?sd"
    unfolding top by (rule take_is_prefix)
  have "mset (map fst ?sd) = mset (map fst ?g)"
    using ms by (metis mset_map)
  then have "distinct (map fst ?sd)"
    using distinct_group_keys[of State Profit fdf] by (metis mset_eq_imp_distinct_iff)
  then show "distinct (map fst (top_states srt fdf))"
    unfolding top take_map[symmetric] by (rule distinct_take)
  have sets: "set ?sd = set ?g"
    by (rule set_sort_values_desc[OF assms])
  show "set (top_states srt fdf) \<subseteq> set ?g"
    unfolding top using set_take_subset[of 10 ?sd] sets by simp
  have "length ?sd = length ?g"
    using ms by (metis size_mset)
  then show "length (top_states srt fdf) = min 10 (card (State ` set fdf - {None}))"
    by (simp add: top length_groupby_sum min.commute)
  show "\<forall>x\<in>set ?g - set (top_states srt fdf). \<forall>y\<in>set (top_states srt fdf). snd x \<le> snd y"
  proof (intro ballI)
    fix x y
    assume x: "x \<in> set ?g - set (top_states srt fdf)" and y: "y \<in> set (top_states srt fdf)"
    have "set ?sd = set (take 10 ?sd) \<union> set (drop 10 ?sd)"
      by (metis append_take_drop_id set_append)
    then have xd: "x \<in> set (drop 10 ?sd)"
      using x sets top by auto
    have "sorted_wrt (\<lambda>a b. b \<le> a) (map snd (take 10 ?sd) @ map snd (drop 10 ?sd))"
      using desc by (simp only: map_append[symmetric] append_take_drop_id)
    then have "\<forall>a\<in>set (map snd (take 10 ?sd)). \<forall>b\<in>set (map snd (drop 10 ?sd)). b \<le> a"
      by (simp only: sorted_wrt_append) blast
    then show "snd x \<le> snd y"
      using xd y top by simp
  qed
qed

section \<open>The heatmap\<close>

lemma map_of_groupby_sum:
  "map_of (groupby_sum key val df) k =
     (if k \<in> set (map fst (groupby_sum key val df))
      then Some (series_sum (col val (filter (\<lambda>r. key r = Some k) df))) else None)"
proof -
  let ?ks = "sort (unique (dropna (col key df)))"
  have "map_of (groupby_sum key val df) k =
        ((Some \<circ> (\<lambda>k. series_sum (col val (filter (\<lambda>r. key r = Some k) df)))) |` set ?ks) k"
    unfolding groupby_sum_def by (simp only: map_of_map_restrict)
  then show ?thesis
    by (simp add: restrict_map_def group_keys)
qed

lemma no_rows_sum: "k \<notin> set (map fst (groupby_sum key val df)) \<Longrightarrow>
   series_sum (col val (filter (\<lambda>r. key r = Some k) df)) = 0"
proof -
  assume "k \<notin> set (map fst (groupby_sum key val df))"
  then have "\<forall>r\<in>set df. key r \<noteq> Some k"
    unfolding set_group_keys by blast
  then have "filter (\<lambda>r. key r = Some k) df = []"
    by (simp add: filter_empty_conv)
  then show ?thesis by (simp add: col_def series_sum_Nil)
qed

lemma filled_cell:
  "(case map_of (heat_data fdf) (i, c) of None \<Rightarrow> 0 | Some x \<Rightarrow> x) = pair_profit fdf i c"
proof -
  have eq: "series_sum (col Profit (filter (\<lambda>r. keys2 Region Segment r = Some (i, c)) fdf)) = pair_profit fdf i c"
    by (simp only: keys2_Some pair_profit_def)
  show ?thesis
  proof (cases "(i, c) \<in> set (map fst (heat_data fdf))")
    case True
    then show ?thesis
      using eq by (simp add: heat_data_def map_of_groupby_sum)
  next
    case False
    then have "series_sum (col Profit (filter (\<lambda>r. keys2 Region Segment r = Some (i, c)) fdf)) = 0"
      unfolding heat_data_def by (rule no_rows_sum)
    then show ?thesis
      using False eq by (simp add: heat_data_def map_of_groupby_sum)
  qed
qed

lemma heat_pivot_eq:
  "heat_pivot fdf =
     Inr \<lparr> index = sort (unique (map (\<lambda>e. fst (fst e)) (heat_data fdf))),
           columns = sort (unique (map (\<lambda>e. snd (fst e)) (heat_data fdf))),
           values_of = map (\<lambda>i. map (\<lambda>c. pair_profit fdf i c)
                          (sort (unique (map (\<lambda>e. snd (fst e)) (heat_data fdf)))))
                        (sort (unique (map (\<lambda>e. fst (fst e)) (heat_data fdf)))) \<rparr>"
proof -
  have "distinct (map fst (heat_data fdf))"
    unfolding heat_data_def by (rule distinct_group_keys)
  then show ?thesis
    by (simp add: heat_pivot_def pivot_def fillna_def comp_def filled_cell)
qed

lemma heat_index_set:
  "set (map (\<lambda>e. fst (fst e)) (heat_data fdf)) = {a. \<exists>r\<in>set fdf. Region r = Some a \<and> Segment r \<noteq> None}"
proof -
  have "set (map (\<lambda>e. fst (fst e)) (heat_data fdf)) = fst ` set (map fst (heat_data fdf))"
    by (simp add: image_image)
  also have "\<dots> = fst ` {k. \<exists>r\<in>set fdf. keys2 Region Segment r = Some k}"
    unfolding heat_data_def set_group_keys ..
  also have "\<dots> = {a. \<exists>r\<in>set fdf. Region r = Some a \<and> Segment r \<noteq> None}"
  proof (rule set_eqI)
    fix a
    show "a \<in> fst ` {k. \<exists>r\<in>set fdf. keys2 Region Segment r = Some k} \<longleftrightarrow>
          a \<in> {a. \<exists>r\<in>set fdf. Region r = Some a \<and> Segment r \<noteq> None}"
      by (force simp: keys2_Some image_iff)
  qed
  finally show ?thesis .
qed

lemma heat_columns_set:
  "set (map (\<lambda>e. snd (fst e)) (heat_data fdf)) = {b. \<exists>r\<in>set fdf. Segment r = Some b \<and> Region r \<noteq> None}"
proof -
  have "set (map (\<lambda>e. snd (fst e)) (heat_data fdf)) = snd ` set (map fst (heat_data fdf))"
    by (simp add: image_image)
  also have "\<dots> = snd ` {k. \<exists>r\<in>set fdf. keys2 Region Segment r = Some k}"
    unfolding heat_data_def set_group_keys ..
  also have "\<dots> = {b. \<exists>r\<in>set fdf. Segment r = Some b \<and> Region r \<noteq> None}"
  proof (rule set_eqI)
    fix b
    show "b \<in> snd ` {k. \<exists>r\<in>set fdf. keys2 Region Segment r = Some k} \<longleftrightarrow>
          b \<in> {b. \<exists>r\<in>set fdf. Segment r = Some b \<and> Region r \<noteq> None}"
      by (force simp: keys2_Some image_iff)
  qed
  finally show ?thesis .
qed



section \<open>Concrete runs\<close>

lemma filtered_rows:
  assumes "filtered_df df region segment category [d0, d1] = Inr fdf" "r \<in> set fdf"
  shows "Region r \<noteq> None" "Segment r \<noteq> None" "Category r \<noteq> None" "Order_Date r \<noteq> None"
proof -
  have "satisfies region segment category d0 d1 r"
    using assms by (auto simp: filtered_df_filter)
  then show "Region r \<noteq> None" "Segment r \<noteq> None" "Category r \<noteq> None" "Order_Date r \<noteq> None"
    by (auto simp: satisfies_def in_selection_def in_date_range_def split: option.splits)
qed

lemma demo_views:
  "region_sales demo = [(''East'', 150), (''West'', 200)]"
  "filter (\<lambda>r. Region r \<noteq> None) demo = [row1, row2, row3]"
  "ship_sales demo = [(''First Class'', 300), (''Second Class'', 50)]"
  "top_states (sort_key snd) demo =
     [(''California'', 20), (''New York'', 10), (''Texas'', 7), (''New Jersey'', - 5)]"
  "heat_pivot demo = Inr \<lparr> index = [''East'', ''West''], columns = [''Consumer'', ''Corporate''],
                           values_of = [[10, - 5], [20, 0]] \<rparr>"
  by code_simp+



lemma empty_demo:
  "filtered_df demo (default_selection Region demo) (default_selection Segment demo)
     (default_selection Category demo) [(2030, 1, 1), (2030, 12, 31)] = Inr []"
  "length (default_selection Region demo) * length (default_selection Segment demo) = 4"
  by code_simp+

section \<open>Missing keys, empty frames and the top ten states\<close>

text \<open>
  C9. In each grouped view a row whose grouping key is missing (for a view grouped by two
  columns: a row with either key missing) forms no group and adds to no group's sum: the
  view of a frame is the view of the frame without those rows, and the labels of the
  groups are exactly the key cells that are present, so no label stands for a missing key.
  For the top states, which are cut at ten, the labels are among the states present.
\<close>

theorem C9_missing_keys_excluded:
  assumes "sorts_by_value srt"
  shows
    "region_sales (filter (\<lambda>r. Region r \<noteq> None) df) = region_sales df \<and>
     Some ` fst ` set (region_sales df) = Region ` set df - {None} \<and>
     year_sales (filter (\<lambda>r. Order_Date r \<noteq> None) df) = year_sales df \<and>
     Some ` fst ` set (year_sales df) = (\<lambda>r. dt_year (Order_Date r)) ` set df - {None} \<and>
     top_states srt (filter (\<lambda>r. State r \<noteq> None) df) = top_states srt df \<and>
     Some ` fst ` set (top_states srt df) \<subseteq> State ` set df - {None} \<and>
     cat_sales (filter (\<lambda>r. Category r \<noteq> None \<and> Sub_Category r \<noteq> None) df) = cat_sales df \<and>
     Some ` fst ` set (cat_sales df) = keys2 Category Sub_Category ` set df - {None} \<and>
     ship_sales (filter (\<lambda>r. Ship_Mode r \<noteq> None) df) = ship_sales df \<and>
     Some ` fst ` set (ship_sales df) = Ship_Mode ` set df - {None} \<and>
     heat_data (filter (\<lambda>r. Region r \<noteq> None \<and> Segment r \<noteq> None) df) = heat_data df \<and>
     Some ` fst ` set (heat_data df) = keys2 Region Segment ` set df - {None} \<and>
     heat_pivot (filter (\<lambda>r. Region r \<noteq> None \<and> Segment r \<noteq> None) df) = heat_pivot df"
proof -
  have two: "groupby_sum (keys2 f g) val (filter (\<lambda>r. f r \<noteq> None \<and> g r \<noteq> None) df)
             = groupby_sum (keys2 f g) val df"
    for f g :: "sale \<Rightarrow> string option" and val
    using groupby_sum_dropna[of "keys2 f g" val df] by (simp only: keys2_None)
  have "snd ` set (df_year df) = (\<lambda>r. dt_year (Order_Date r)) ` set df"
    by (simp add: df_year_def image_image)
  then have year: "Some ` fst ` set (year_sales df) = (\<lambda>r. dt_year (Order_Date r)) ` set df - {None}"
    by (simp only: year_sales_def group_labels)
  have "Some ` fst ` set (top_states srt df) \<subseteq> Some ` fst ` set (groupby_sum State Profit df)"
    using top_states_props(5)[OF assms, of df] by blast
  then have top: "Some ` fst ` set (top_states srt df) \<subseteq> State ` set df - {None}"
    by (simp only: group_labels)
  have heat: "heat_data (filter (\<lambda>r. Region r \<noteq> None \<and> Segment r \<noteq> None) df) = heat_data df"
    unfolding heat_data_def by (rule two)
  have pivot: "heat_pivot (filter (\<lambda>r. Region r \<noteq> None \<and> Segment r \<noteq> None) df) = heat_pivot df"
    unfolding heat_pivot_def heat ..
  show ?thesis
    using year top heat pivot
    by (simp only: region_sales_def ship_sales_def cat_sales_def heat_data_def groupby_sum_dropna
        group_labels year_sales_dropna top_states_dropna two simp_thms)
qed

text \<open>
  In the small frame the fourth row has no region and no ship mode: the region view is that
  of the other three rows, and its sales of 70 are in no group of the ship-mode view.
\<close>

theorem C9_missing_keys_excluded_witness:
  "region_sales [row1, row2, row3] = [(''East'', 150), (''West'', 200)] \<and>
   region_sales demo = [(''East'', 150), (''West'', 200)] \<and>
   ship_sales demo = [(''First Class'', 300), (''Second Class'', 50)] \<and>
   row4 \<in> set demo \<and> Region row4 = None \<and> Ship_Mode row4 = None \<and> Sales row4 = Some 70"
proof -
  have "region_sales (filter (\<lambda>r. Region r \<noteq> None) demo) = region_sales demo"
    using C9_missing_keys_excluded [OF sorts_by_value_sort_key, of demo] by blast
  then have "region_sales [row1, row2, row3] = region_sales demo"
    by (simp only: demo_views)
  moreover have "row4 \<in> set demo" "Region row4 = None" "Ship_Mode row4 = None" "Sales row4 = Some 70"
    by (simp_all add: demo_def row4_def)
  ultimately show ?thesis
    by (simp add: demo_views)
qed

text \<open>
  C7. On the empty filtered frame no view fails: the KPIs are total sales 0, total profit
  0, no value for the mean shipping cost and 0 distinct orders, and every grouped view,
  the heatmap included, has no rows.
\<close>

theorem C7_empty_frame_views:
  assumes "sorts_by_value srt"
  shows
    "draw_kpis [] = \<lparr> total_sales = 0, total_profit = 0, avg_shipping = None, total_orders = 0 \<rparr> \<and>
     region_sales [] = [] \<and> year_sales [] = [] \<and> top_states srt [] = [] \<and>
     cat_sales [] = [] \<and> ship_sales [] = [] \<and> heat_data [] = [] \<and>
     heat_pivot [] = Inr \<lparr> index = [], columns = [], values_of = [] \<rparr>"
  using top_empty[OF assms] by (simp only: empty_views simp_thms)

text \<open>
  The same with the stable insertion sort in the place of numpy's sort.
\<close>

theorem C7_empty_frame_views_witness:
  "draw_kpis [] = \<lparr> total_sales = 0, total_profit = 0, avg_shipping = None, total_orders = 0 \<rparr> \<and>
   region_sales [] = [] \<and> year_sales [] = [] \<and> top_states (sort_key snd) [] = [] \<and>
   cat_sales [] = [] \<and> ship_sales [] = [] \<and> heat_data [] = [] \<and>
   heat_pivot [] = Inr \<lparr> index = [], columns = [], values_of = [] \<rparr>"
  by (rule C7_empty_frame_views [OF sorts_by_value_sort_key])






section \<open>The cells of the heatmap\<close>

lemma length_grid: "length (concat (map (\<lambda>i. map (f i) cs) is)) = length is * length cs"
  by (induction "is") simp_all

lemma pair_profit_none:
  "\<forall>r\<in>set fdf. Region r = Some i \<longrightarrow> Segment r \<noteq> Some c \<Longrightarrow> pair_profit fdf i c = 0"
proof -
  assume "\<forall>r\<in>set fdf. Region r = Some i \<longrightarrow> Segment r \<noteq> Some c"
  then have "filter (\<lambda>r. Region r = Some i \<and> Segment r = Some c) fdf = []"
    by (simp add: filter_empty_conv)
  then show ?thesis
    by (simp add: pair_profit_def col_def series_sum_Nil)
qed

lemma present_labels:
  assumes "\<And>r. r \<in> set fdf \<Longrightarrow> f r \<noteq> None"
  shows "Some ` {a. \<exists>r\<in>set fdf. f r = Some a} = f ` set fdf"
proof (rule set_eqI)
  fix x
  show "x \<in> Some ` {a. \<exists>r\<in>set fdf. f r = Some a} \<longleftrightarrow> x \<in> f ` set fdf"
  proof (cases x)
    case None
    have "None \<notin> f ` set fdf"
      using assms by (metis imageE)
    then show ?thesis
      using None by auto
  next
    case (Some a)
    have "Some a \<in> f ` set fdf \<longleftrightarrow> (\<exists>r\<in>set fdf. f r = Some a)"
      by (metis image_iff)
    then show ?thesis
      using Some by blast
  qed
qed

lemma demo_default_filtered:
  "filtered_df demo [''East'', ''West''] [''Consumer'', ''Corporate''] [''Furniture'']
     [(2020, 1, 15), (2021, 6, 30)] = Inr [row1, row2, row3]"
  "heat_pivot [row1, row2, row3] =
     Inr \<lparr> index = [''East'', ''West''], columns = [''Consumer'', ''Corporate''],
           values_of = [[10, - 5], [20, 0]] \<rparr>"
  "region_sales [row1, row2, row3] = [(''East'', 150), (''West'', 200)]"
  "series_sum (col Sales [row1, row2, row3]) = 350"
  "series_sum (col Profit [row1, row2, row3]) = 25"
  by code_simp+

text \<open>
  C2, amended. For every filtered frame the heatmap has exactly one cell for every pair of
  a region and a segment that occur in the filtered frame, that is
  (number of distinct regions of the filtered frame) times (number of distinct segments of
  the filtered frame) cells; a cell holds the summed profit of the rows of its pair, which
  is 0 for a pair with no rows. When the filter excludes all rows, the heatmap has no
  cells.
\<close>

theorem C2_heatmap_grid:
  assumes "filtered_df df region segment category [d0, d1] = Inr fdf"
  shows "\<exists>hp. heat_pivot fdf = Inr hp \<and>
     sorted (index hp) \<and> distinct (index hp) \<and> Some ` set (index hp) = Region ` set fdf \<and>
     sorted (columns hp) \<and> distinct (columns hp) \<and> Some ` set (columns hp) = Segment ` set fdf \<and>
     values_of hp = map (\<lambda>i. map (\<lambda>c. pair_profit fdf i c) (columns hp)) (index hp) \<and>
     length (concat (values_of hp)) = card (Region ` set fdf) * card (Segment ` set fdf) \<and>
     (\<forall>i\<in>set (index hp). \<forall>c\<in>set (columns hp).
        (\<forall>r\<in>set fdf. Region r = Some i \<longrightarrow> Segment r \<noteq> Some c) \<longrightarrow> pair_profit fdf i c = 0) \<and>
     (fdf = [] \<longrightarrow> values_of hp = [])"
proof -
  let ?I = "sort (unique (map (\<lambda>e. fst (fst e)) (heat_data fdf)))"
  let ?C = "sort (unique (map (\<lambda>e. snd (fst e)) (heat_data fdf)))"
  let ?hp = "\<lparr> index = ?I, columns = ?C,
               values_of = map (\<lambda>i. map (\<lambda>c. pair_profit fdf i c) ?C) ?I \<rparr>"
  note rows = filtered_rows[OF assms]
  have I: "Some ` set ?I = Region ` set fdf"
  proof -
    have "set ?I = {a. \<exists>r\<in>set fdf. Region r = Some a \<and> Segment r \<noteq> None}"
      by (simp only: set_sort set_unique heat_index_set)
    also have "\<dots> = {a. \<exists>r\<in>set fdf. Region r = Some a}"
      using rows(2) by blast
    finally show ?thesis
      using present_labels[of fdf Region] rows(1) by simp
  qed
  have C: "Some ` set ?C = Segment ` set fdf"
  proof -
    have "set ?C = {b. \<exists>r\<in>set fdf. Segment r = Some b \<and> Region r \<noteq> None}"
      by (simp only: set_sort set_unique heat_columns_set)
    also have "\<dots> = {b. \<exists>r\<in>set fdf. Segment r = Some b}"
      using rows(1) by blast
    finally show ?thesis
      using present_labels[of fdf Segment] rows(2) by simp
  qed
  have dI: "distinct ?I" and dC: "distinct ?C"
    by (simp_all add: distinct_unique)
  have "card (Some ` set ?I) = card (set ?I)"
    by (rule card_image) simp
  also have "\<dots> = length ?I"
    using dI by (rule distinct_card)
  finally have lI: "length ?I = card (Region ` set fdf)"
    unfolding I by (rule sym)
  have "card (Some ` set ?C) = card (set ?C)"
    by (rule card_image) simp
  also have "\<dots> = length ?C"
    using dC by (rule distinct_card)
  finally have lC: "length ?C = card (Segment ` set fdf)"
    unfolding C by (rule sym)
  have vals: "values_of ?hp = map (\<lambda>i. map (\<lambda>c. pair_profit fdf i c) ?C) ?I"
    by simp
  have cells: "length (concat (values_of ?hp)) = card (Region ` set fdf) * card (Segment ` set fdf)"
    unfolding vals length_grid lI lC ..
  have empty: "fdf = [] \<longrightarrow> values_of ?hp = []"
    by (simp add: heat_data_def groupby_sum_Nil unique_def)
  have zero: "\<forall>i\<in>set (index ?hp). \<forall>c\<in>set (columns ?hp).
        (\<forall>r\<in>set fdf. Region r = Some i \<longrightarrow> Segment r \<noteq> Some c) \<longrightarrow> pair_profit fdf i c = 0"
    using pair_profit_none by blast
  have "heat_pivot fdf = Inr ?hp"
    by (rule heat_pivot_eq)
  moreover have "sorted (index ?hp)" "sorted (columns ?hp)" "distinct (index ?hp)" "distinct (columns ?hp)"
    "Some ` set (index ?hp) = Region ` set fdf" "Some ` set (columns ?hp) = Segment ` set fdf"
    "values_of ?hp = map (\<lambda>i. map (\<lambda>c. pair_profit fdf i c) (columns ?hp)) (index ?hp)"
    using dI dC I C by simp_all
  ultimately show ?thesis
    using cells zero empty by blast
qed

text \<open>
  The three rows of the small frame that pass the default filter give the two by two grid
  with a 0 for West and Corporate.
\<close>

theorem C2_heatmap_grid_witness:
  "heat_pivot [row1, row2, row3] =
     Inr \<lparr> index = [''East'', ''West''], columns = [''Consumer'', ''Corporate''],
           values_of = [[10, - 5], [20, 0]] \<rparr> \<and>
   length (concat [[10, - 5], [20, 0 :: real]]) =
     card (Region ` set [row1, row2, row3]) * card (Segment ` set [row1, row2, row3]) \<and>
   pair_profit [row1, row2, row3] ''West'' ''Corporate'' = 0"
proof -
  from C2_heatmap_grid [OF demo_default_filtered(1)]
  obtain hp where hp: "heat_pivot [row1, row2, row3] = Inr hp"
    and n: "length (concat (values_of hp)) =
            card (Region ` set [row1, row2, row3]) * card (Segment ` set [row1, row2, row3])"
    and v: "values_of hp = map (\<lambda>i. map (\<lambda>c. pair_profit [row1, row2, row3] i c) (columns hp)) (index hp)"
    by blast
  have eq: "hp = \<lparr> index = [''East'', ''West''], columns = [''Consumer'', ''Corporate''],
           values_of = [[10, - 5], [20, 0]] \<rparr>"
    using hp by (simp add: demo_default_filtered(2))
  have "pair_profit [row1, row2, row3] ''West'' ''Corporate'' = 0"
    using v unfolding eq by simp
  then show ?thesis
    using n unfolding eq by (simp add: demo_default_filtered(2))
qed

text \<open>
  C2 as stated fails: with the default selections (two regions, two segments) and a date
  range that excludes every row, the heatmap has no cells, not a grid of four zeros.
\<close>

theorem C2_heatmap_grid_counterexample:
  "filtered_df demo (default_selection Region demo) (default_selection Segment demo)
     (default_selection Category demo) [(2030, 1, 1), (2030, 12, 31)] = Inr [] \<and>
   heat_pivot [] = Inr \<lparr> index = [], columns = [], values_of = [] \<rparr> \<and>
   length (default_selection Region demo) * length (default_selection Segment demo) = 4 \<and>
   length (concat ([] :: real list list)) \<noteq>
     length (default_selection Region demo) * length (default_selection Segment demo)"
  by (simp add: empty_demo empty_views)

section \<open>Conservation of sums\<close>




section \<open>Sums as the machine computes them\<close>























subsection \<open>Amounts on which additions round\<close>

text \<open>
  Without whole amounts the sums need not agree. For 0.1 in the East and 0.2 and 0.3 in
  the West, with every addition rounded to float64, the West adds up to 0.5 and the two
  groups to \<open>5404319552844595 / 2 ^ 53\<close>, which prints as 0.6, while the column adds up
  to \<open>5404319552844596 / 2 ^ 53\<close>, which prints as 0.6000000000000001.
\<close>

lemma rnd64_eval:
  assumes "2 powr of_int e \<le> x" "x < 2 powr (of_int e + 1)"
  shows "rnd64 x = 2 powr (of_int e - 52) * of_int (round_even (x / 2 powr (of_int e - 52)))"
proof -
  have pos: "0 < x"
    using assms(1) by (smt (verit) powr_gt_zero)
  have "of_int e \<le> log 2 x"
    using assms(1) pos by (simp add: le_log_iff)
  moreover have "log 2 x < of_int e + 1"
    using assms(2) pos by (simp add: log_less_iff)
  ultimately have "\<lfloor>log 2 x\<rfloor> = e"
    by (simp add: floor_eq_iff)
  then show ?thesis
    using pos by (simp add: rnd64_def ulp64_def)
qed

lemma rnd64_frac:
  assumes "1 \<le> x * 2 ^ n" "x * 2 ^ n < 2"
  shows "rnd64 x = of_int (round_even (x * 2 ^ (n + 52))) / 2 ^ (n + 52)"
proof -
  have p: "(2::real) powr (- real n) = 1 / 2 ^ n"
    by (simp add: powr_minus powr_realpow divide_inverse)
  have q: "(2::real) powr (- real n - 52) = 1 / 2 ^ (n + 52)"
    using powr_realpow[of 2 "n + 52"] powr_minus[of 2 "real (n + 52)"]
    by (simp add: divide_inverse algebra_simps)
  have "(2::real) powr (- real n + 1) = 2 powr (- real n) * 2 powr 1"
    by (rule powr_add)
  then have "(2::real) powr (- real n + 1) = 2 / 2 ^ n"
    unfolding p by simp
  then have r: "(2::real) powr (of_int (- int n) + 1) = 2 / 2 ^ n"
    by simp
  have l: "(2::real) powr of_int (- int n) = 1 / 2 ^ n"
    using p by simp
  have "1 / 2 ^ n \<le> x"
    using assms(1) by (simp add: pos_divide_le_eq)
  moreover have "x < 2 / 2 ^ n"
    using assms(2) by (simp add: pos_less_divide_eq)
  ultimately have "2 powr of_int (- int n) \<le> x" "x < 2 powr (of_int (- int n) + 1)"
    unfolding l r by simp_all
  from rnd64_eval[OF this] show ?thesis
    using q by simp
qed

lemma rnd64_tenths:
  "rnd64 (1 / 10) = 3602879701896397 / 2 ^ 55"
  "rnd64 (2 / 10) = 3602879701896397 / 2 ^ 54"
  "rnd64 (3 / 10) = 5404319552844595 / 2 ^ 54"
  using rnd64_frac[of "1 / 10" 4] rnd64_frac[of "2 / 10" 3] rnd64_frac[of "3 / 10" 2]
  by (simp_all add: round_even_def)

lemma rnd64_steps:
  "rnd64 (3602879701896397 / 2 ^ 55) = 3602879701896397 / 2 ^ 55"
  "rnd64 (3602879701896397 / 2 ^ 54) = 3602879701896397 / 2 ^ 54"
  "rnd64 (3602879701896397 / 2 ^ 55 + 3602879701896397 / 2 ^ 54) = 5404319552844596 / 2 ^ 54"
  "rnd64 (5404319552844596 / 2 ^ 54 + 5404319552844595 / 2 ^ 54) = 5404319552844596 / 2 ^ 53"
  "rnd64 (3602879701896397 / 2 ^ 54 + 5404319552844595 / 2 ^ 54) = 1 / 2"
  "rnd64 (3602879701896397 / 2 ^ 55 + 1 / 2) = 5404319552844595 / 2 ^ 53"
  using rnd64_frac[of "3602879701896397 / 2 ^ 55" 4]
    rnd64_frac[of "3602879701896397 / 2 ^ 54" 3]
    rnd64_frac[of "3602879701896397 / 2 ^ 55 + 3602879701896397 / 2 ^ 54" 2]
    rnd64_frac[of "5404319552844596 / 2 ^ 54 + 5404319552844595 / 2 ^ 54" 1]
    rnd64_frac[of "3602879701896397 / 2 ^ 54 + 5404319552844595 / 2 ^ 54" 1]
    rnd64_frac[of "3602879701896397 / 2 ^ 55 + 1 / 2" 1]
  by (simp_all add: round_even_def)

lemma tenths_filtered:
  "filtered_df tenths [''East'', ''West''] [''Consumer''] [''Furniture''] [(2020, 1, 1), (2020, 12, 31)]
     = Inr tenths"
  by (simp add: filtered_df_filter tenths_def amount_row_def row1_def satisfies_def in_selection_def
      in_date_range_def)

lemma rnd64_tenth: "rnd64 tenth1 = tenth1" "rnd64 tenth2 = tenth2"
  unfolding tenth1_def tenth2_def rnd64_tenths rnd64_steps by (rule refl)+

lemma tenths_groups:
  "region_sales_fl naive_sum tenths = [(''East'', tenth1), (''West'', rnd64 (tenth2 + tenth3))]"
  by (simp add: region_sales_fl_def groupby_agg_def col_def unique_def tenths_def amount_row_def
      row1_def naive_sum_def rnd64_tenth)

lemma tenths_total:
  "naive_sum (dropna (col Sales tenths)) = 5404319552844596 / 2 ^ 53"
proof -
  have "naive_sum (dropna (col Sales tenths)) = rnd64 (rnd64 (tenth1 + tenth2) + tenth3)"
    by (simp add: col_def tenths_def amount_row_def row1_def naive_sum_def rnd64_tenth)
  also have "\<dots> = 5404319552844596 / 2 ^ 53"
    unfolding tenth1_def tenth2_def tenth3_def rnd64_tenths rnd64_steps by (rule refl)
  finally show ?thesis .
qed

lemma tenths_group_total:
  "naive_sum (map snd (region_sales_fl naive_sum tenths)) = 5404319552844595 / 2 ^ 53"
proof -
  have "naive_sum (map snd (region_sales_fl naive_sum tenths)) = rnd64 (tenth1 + rnd64 (tenth2 + tenth3))"
    unfolding tenths_groups by (simp add: naive_sum_def rnd64_tenth)
  also have "\<dots> = 5404319552844595 / 2 ^ 53"
    unfolding tenth1_def tenth2_def tenth3_def rnd64_tenths rnd64_steps by (rule refl)
  finally show ?thesis .
qed

lemma rounding_breaks_conservation:
  "naive_sum (map snd (region_sales_fl naive_sum tenths)) \<noteq> naive_sum (dropna (col Sales tenths))"
  unfolding tenths_total tenths_group_total by simp

end
